theory Spec2Isabelle
  imports Complex_Main "HOL-Library.Word" "HOL-Library.Multiset"
begin

section \<open>Errors\<close>

text \<open>
  Modelled from the spec: the macros \<open>CHECK\<close>, \<open>LOG\<close>, \<open>PREPARE_RUNTIME_ERR\<close>
  and \<open>THROW_RUNTIME_ERR\<close> (logging.h, not among the sources). The sources fail in
  three ways, each a value here:
  \<^item> \<open>throw runtime_error(msg)\<close>, also through \<open>PREPARE_RUNTIME_ERR\<close> and
    \<open>THROW_RUNTIME_ERR\<close>; the message is the text the source streams into it;
  \<^item> a failed \<open>CHECK(cond)\<close>, carrying the text of the condition ("fails with a
    DimensionMismatch error");
  \<^item> the handler of \<open>ReadSparseVec\<close>, which writes one message at level
    \<open>LIB_ERROR\<close> and one at level \<open>LIB_FATAL\<close>, the level that ends the run
    ("fails fatally").
  The spec's error kinds are particular values of these: PhaseViolation and
  ValidationError are \<open>runtime_error\<close>s, DimensionMismatch is a \<open>check_failed\<close>,
  a fatal parse failure is a \<open>log_fatal\<close>.
\<close>

datatype error =
    runtime_error string
  | check_failed string
  | log_fatal string string

section \<open>Characters and decimal numbers of the C++ streams\<close>

definition isspace :: "char \<Rightarrow> bool" where
  \<comment> \<open>\<open>isspace\<close> of the C locale: the space and the codes 9 to 13 (tab to carriage return)\<close>
  "isspace c = (c = CHR '' '' \<or> (9 \<le> (of_char c :: nat) \<and> (of_char c :: nat) \<le> 13))"

definition isdigit :: "char \<Rightarrow> bool" where
  "isdigit c = (48 \<le> (of_char c :: nat) \<and> (of_char c :: nat) \<le> 57)"

definition digit_char :: "nat \<Rightarrow> char" where
  "digit_char d = char_of (48 + d)"

definition digit_val :: "char \<Rightarrow> int" where
  "digit_val c = of_char c - 48"

text \<open>\<open>out << n\<close> for an unsigned integer: its decimal digits.\<close>

function show_nat :: "nat \<Rightarrow> string" where
  "show_nat n = (if n < 10 then [digit_char n] else show_nat (n div 10) @ [digit_char (n mod 10)])"
  by pat_completeness auto
termination
  by (relation "measure (\<lambda>n. n)") auto

declare show_nat.simps [simp del]

definition show_int :: "int \<Rightarrow> string" where
  "show_int i = (if i < 0 then CHR ''-'' # show_nat (nat (- i)) else show_nat (nat i))"

section \<open>Objects\<close>

text \<open>
  Modelled from the spec: \<open>Object\<close> (object.h, not among the sources), "id: integer,
  label: integer|absent, payload: immutable byte buffer". The code reaches the payload
  through \<open>data()\<close> and its length in bytes through \<open>datalength()\<close>.
\<close>

record Object =
  obj_id :: int
  obj_label :: int
  data :: "8 word list"

definition datalength :: "Object \<Rightarrow> nat" where
  "datalength obj = length (data obj)"

section \<open>The class Space (space.h)\<close>

text \<open>
  The one data member of \<open>Space\<close> is the mutable flag \<open>bIndexPhase\<close>, initialised
  to \<open>true\<close>. Subclasses extend the record. The pure virtual functions
  \<open>HiddenDistance\<close> and \<open>HiddenClone\<close> are arguments of the functions that call them.
\<close>

record Space =
  bIndexPhase :: bool

definition phase_message :: string where
  "phase_message =
     ''The public function '' @ ''IndexTimeDistance'' @
     '' function is accessible only during the indexing phase!''"

definition IndexTimeDistance ::
  "('a Space_scheme \<Rightarrow> Object \<Rightarrow> Object \<Rightarrow> error + 'd) \<Rightarrow>
   'a Space_scheme \<Rightarrow> Object \<Rightarrow> Object \<Rightarrow> error + 'd" where
  "IndexTimeDistance HiddenDistance this obj1 obj2 =
     (if \<not> bIndexPhase this then Inl (runtime_error phase_message)
      else HiddenDistance this obj1 obj2)"

text \<open>
  \<open>Clone\<close> allocates, and \<open>SetIndexPhase\<close> and \<open>SetQueryPhase\<close> write through
  \<open>this\<close>, so they act on a store of space objects: an address is an index into the
  store and \<open>new\<close> appends.
\<close>

type_synonym addr = nat

type_synonym 's heap = "'s list"

definition new :: "'s \<Rightarrow> 's heap \<Rightarrow> addr \<times> 's heap" where
  "new obj h = (length h, h @ [obj])"

definition SetIndexPhase :: "addr \<Rightarrow> 'a Space_scheme heap \<Rightarrow> 'a Space_scheme heap" where
  "SetIndexPhase this h = h[this := (h ! this)\<lparr>bIndexPhase := True\<rparr>]"

definition SetQueryPhase :: "addr \<Rightarrow> 'a Space_scheme heap \<Rightarrow> 'a Space_scheme heap" where
  "SetQueryPhase this h = h[this := (h ! this)\<lparr>bIndexPhase := False\<rparr>]"

definition Clone ::
  "(addr \<Rightarrow> 'a Space_scheme heap \<Rightarrow> addr \<times> 'a Space_scheme heap) \<Rightarrow>
   addr \<Rightarrow> 'a Space_scheme heap \<Rightarrow> addr \<times> 'a Space_scheme heap" where
  "Clone HiddenClone this h =
     (case HiddenClone this h of (res, h') \<Rightarrow> (res, SetIndexPhase res h'))"

section \<open>WordEmbedSpace (space\_word\_embed.cc)\<close>

text \<open>
  Modelled from the spec: the metric selector (space\_word\_embed.h, not among the
  sources), "a metric selector with exactly two recognized values, L2 and Cosine". The
  two enumerators are the ones the code compares \<open>distType_\<close> with (the member is
  \<open>distType\<close> here, a name cannot end in an underscore), and \<open>enum_code\<close> is the
  number \<open>operator<<\<close> prints for them, in the order of declaration. The constructor
  stores the selector; the flag of the base class takes its default.
\<close>

datatype EmbedDistSpace = kEmbedDistL2 | kEmbedDistCosine

fun enum_code :: "EmbedDistSpace \<Rightarrow> int" where
  "enum_code kEmbedDistL2 = 0"
| "enum_code kEmbedDistCosine = 1"

record WordEmbedSpace = Space +
  distType :: EmbedDistSpace

definition WordEmbedSpace_ctor :: "EmbedDistSpace \<Rightarrow> WordEmbedSpace" where
  \<comment> \<open>\<open>new WordEmbedSpace<dist_t>(distType)\<close>: the flag takes its default\<close>
  "WordEmbedSpace_ctor d = \<lparr>bIndexPhase = True, distType = d\<rparr>"

definition WordEmbed_HiddenClone :: "addr \<Rightarrow> WordEmbedSpace heap \<Rightarrow> addr \<times> WordEmbedSpace heap" where
  "WordEmbed_HiddenClone this h = new (WordEmbedSpace_ctor (distType (h ! this))) h"

text \<open>
  \<open>HiddenDistance\<close>. The kernels \<open>L2NormSIMD\<close> and \<open>CosineSimilarity\<close> (distcomp.h)
  are arguments; they receive the two buffers and the element count. \<open>sizeof_dist_t\<close>
  is \<open>sizeof(dist_t)\<close>, 4 for \<open>float\<close> and 8 for \<open>double\<close>.
\<close>

definition WordEmbed_HiddenDistance ::
  "(8 word list \<Rightarrow> 8 word list \<Rightarrow> nat \<Rightarrow> 'd) \<Rightarrow> (8 word list \<Rightarrow> 8 word list \<Rightarrow> nat \<Rightarrow> 'd) \<Rightarrow> nat \<Rightarrow>
   WordEmbedSpace \<Rightarrow> Object \<Rightarrow> Object \<Rightarrow> error + 'd" where
  "WordEmbed_HiddenDistance L2NormSIMD CosineSimilarity sizeof_dist_t this obj1 obj2 =
     (if \<not> datalength obj1 > 0 then Inl (check_failed ''obj1->datalength() > 0'')
      else if \<not> datalength obj1 = datalength obj2
        then Inl (check_failed ''obj1->datalength() == obj2->datalength()'')
      else
        let x = data obj1; y = data obj2; len = datalength obj1 div sizeof_dist_t
        in if distType this = kEmbedDistL2 then Inr (L2NormSIMD x y len)
           else if distType this = kEmbedDistCosine then Inr (CosineSimilarity x y len)
           else Inl (runtime_error
                  (''Bug: Invalid distance type code: '' @ show_int (enum_code (distType this)))))"

subsection \<open>Serialisation\<close>

text \<open>
  Modelled from the spec: \<open>HasWhiteSpace\<close> (utils.h, not among the sources) tells
  whether the identifier "contains whitespace".
\<close>

definition HasWhiteSpace :: "string \<Rightarrow> bool" where
  "HasWhiteSpace s = list_ex isspace s"

text \<open>
  \<open>CreateStrFromObj\<close>. The dense serialisation \<open>VectorSpace<dist_t>::CreateStrFromObj\<close>
  of the base class is an argument.
\<close>

definition WordEmbed_CreateStrFromObj ::
  "(Object \<Rightarrow> string \<Rightarrow> string) \<Rightarrow> Object \<Rightarrow> string \<Rightarrow> error + string" where
  "WordEmbed_CreateStrFromObj VectorSpace_CreateStrFromObj pObj externId =
     (if HasWhiteSpace externId
      then Inl (runtime_error (''The id '' @ [CHR 0x27] @ externId @ [CHR 0x27] @
                  '' has the white space (but it shouldn't)''))
      else
        let res = VectorSpace_CreateStrFromObj pObj []
        in Inr (if externId \<noteq> [] then externId @ '' '' @ res else res))"

subsection \<open>Reading records\<close>

text \<open>
  The input file: the characters not yet read and the two state bits the code can see.
  \<open>fail\<close> is \<open>operator!\<close> of the stream. \<open>getline\<close> fails on a stream that is not
  good; otherwise it takes the characters up to the next newline, which it drops, or
  up to the end of the file, where it sets \<open>eofbit\<close>, and also \<open>failbit\<close> when it took
  no character.
\<close>

record ifstream =
  rdbuf :: string
  eofbit :: bool
  failbit :: bool

definition fail :: "ifstream \<Rightarrow> bool" where
  "fail f = failbit f"

definition getline :: "ifstream \<Rightarrow> ifstream \<times> string option" where
  "getline f =
     (if eofbit f \<or> failbit f then (f\<lparr>failbit := True\<rparr>, None)
      else
        let l = takeWhile (\<lambda>c. c \<noteq> CHR 0x0A) (rdbuf f);
            rest = dropWhile (\<lambda>c. c \<noteq> CHR 0x0A) (rdbuf f)
        in if rest \<noteq> [] then (f\<lparr>rdbuf := tl rest\<rparr>, Some l)
           else if l = [] then (f\<lparr>rdbuf := [], eofbit := True, failbit := True\<rparr>, None)
           else (f\<lparr>rdbuf := [], eofbit := True\<rparr>, Some l))"

text \<open>\<open>DataFileInputState\<close> (space.h): the stream and the line counter, a \<open>size_t\<close>.\<close>

record DataFileInputState =
  inp_file :: ifstream
  line_num :: "64 word"

text \<open>
  What \<open>ReadNextObjStr\<close> hands back: \<open>false\<close> at the end of the data, or \<open>true\<close>
  with the output arguments \<open>strObj\<close> and \<open>externId\<close>.
\<close>

datatype read_result = EndOfData | Record (strObj: string) (externId: string)

text \<open>
  The search loop \<open>for (i = 0; i < strObj.size(); ++i) if (isspace(strObj[i])) { pos = i; break; }\<close>
  from index \<open>i\<close> on, with \<open>pos\<close> starting at \<open>-1\<close>.
\<close>

function find_space :: "string \<Rightarrow> nat \<Rightarrow> int" where
  "find_space s i =
     (if i < length s then (if isspace (s ! i) then int i else find_space s (i + 1)) else - 1)"
  by pat_completeness auto
termination
  by (relation "measure (\<lambda>(s, i). length s - i)") auto

declare find_space.simps [simp del]

definition no_space_message :: "64 word \<Rightarrow> string" where
  "no_space_message n =
     ''No white space in line #'' @ show_nat (unat n) @ '' line: '' @ [CHR 0x27] @ ''strObj'' @ [CHR 0x27]"

definition WordEmbed_ReadNextObjStr ::
  "DataFileInputState \<Rightarrow> DataFileInputState \<times> (error + read_result)" where
  "WordEmbed_ReadNextObjStr inpState =
     (if fail (inp_file inpState) then (inpState, Inr EndOfData)
      else
        case getline (inp_file inpState) of
          (f, None) \<Rightarrow> (inpState\<lparr>inp_file := f\<rparr>, Inr EndOfData)
        | (f, Some s) \<Rightarrow>
            let st = inpState\<lparr>inp_file := f, line_num := line_num inpState + 1\<rparr>;
                pos = find_space s 0
            in if - 1 = pos then (st, Inl (runtime_error (no_space_message (line_num st))))
               else (st, Inr (Record (drop (nat (pos + 1)) s) (take (nat pos) s))))"

section \<open>SpaceSparseVector (space\_sparse\_vector.cc)\<close>

text \<open>
  Modelled from the spec: \<open>SparseVectElem<dist_t>\<close> (space\_sparse\_vector.h, not
  among the sources), "index: unsigned integer, value: T, ordered by index"; the code
  names the members \<open>id_\<close>, a \<open>uint32_t\<close>, and \<open>val_\<close>. The value type
  \<open>dist_t\<close> (\<open>float\<close> or \<open>double\<close>) is a type variable; reading a value from a
  stream and writing one are arguments of the functions below.
\<close>

record 'v SparseVectElem =
  elem_id :: "32 word"
  elem_val :: 'v

text \<open>
  \<open>str >> id\<close> for a \<open>uint32_t\<close> on the characters left in the stream: white space
  is skipped, then come an optional sign and decimal digits. No digit, or a number
  that does not fit (\<open>2^32 = 4294967296\<close> or more), sets \<open>failbit\<close> (\<open>None\<close>).
  A minus sign negates modulo \<open>2^32\<close>.
\<close>

definition digits_val :: "string \<Rightarrow> int" where
  "digits_val ds = foldl (\<lambda>n c. 10 * n + digit_val c) 0 ds"

definition read_uint32 :: "string \<Rightarrow> (32 word \<times> string) option" where
  "read_uint32 s =
     (let s1 = dropWhile isspace s;
          signed = (s1 \<noteq> [] \<and> (hd s1 = CHR ''-'' \<or> hd s1 = CHR ''+''));
          neg = (s1 \<noteq> [] \<and> hd s1 = CHR ''-'');
          s2 = (if signed then tl s1 else s1);
          ds = takeWhile isdigit s2
      in if ds = [] then None
         else if 4294967296 \<le> digits_val ds then None
         else Some (if neg then - word_of_int (digits_val ds) else word_of_int (digits_val ds),
                    dropWhile isdigit s2))"

text \<open>
  The loop \<open>while (str >> id && str >> val) v.push_back(ElemType(id, val))\<close> on the
  characters left in \<open>str\<close>. \<open>rd_val\<close> is \<open>str >> val\<close>: the value and the number of
  characters it took from the stream, or \<open>None\<close> when it sets \<open>failbit\<close>.
\<close>

function read_pairs ::
  "(string \<Rightarrow> ('v \<times> nat) option) \<Rightarrow> string \<Rightarrow> 'v SparseVectElem list \<Rightarrow> 'v SparseVectElem list" where
  "read_pairs rd_val s v =
     (case read_uint32 s of
        None \<Rightarrow> v
      | Some (i, s1) \<Rightarrow>
          (case rd_val s1 of
             None \<Rightarrow> v
           | Some (x, n) \<Rightarrow> read_pairs rd_val (drop n s1) (v @ [\<lparr>elem_id = i, elem_val = x\<rparr>])))"
  by pat_completeness auto
termination
proof (relation "measure (\<lambda>(rd_val, s, v). length s)")
  show "wf (measure (\<lambda>(rd_val :: string \<Rightarrow> ('v \<times> nat) option, s :: string, v :: 'v SparseVectElem list). length s))"
    by simp
next
  fix rd_val :: "string \<Rightarrow> ('v \<times> nat) option" and s :: string and v :: "'v SparseVectElem list"
    and x2 i s1 x2a x n
  assume "read_uint32 s = Some x2" "(i, s1) = x2"
  then have a: "read_uint32 s = Some (i, s1)" by simp
  define t1 where "t1 = dropWhile isspace s"
  define t2 where "t2 = (if t1 \<noteq> [] \<and> (hd t1 = CHR ''-'' \<or> hd t1 = CHR ''+'') then tl t1 else t1)"
  from a have ds: "takeWhile isdigit t2 \<noteq> []" and r: "s1 = dropWhile isdigit t2"
    by (auto simp: read_uint32_def Let_def t1_def t2_def split: if_splits)
  have "length (takeWhile isdigit t2) + length (dropWhile isdigit t2) = length t2"
    by (metis length_append takeWhile_dropWhile_id)
  with ds r have "length s1 < length t2"
    by (cases "takeWhile isdigit t2") auto
  moreover have "length t2 \<le> length t1" by (simp add: t2_def)
  moreover have "length t1 \<le> length s" by (simp add: t1_def length_dropWhile_le)
  ultimately have "length s1 < length s" by linarith
  then show "((rd_val, drop n s1, v @ [\<lparr>elem_id = i, elem_val = x\<rparr>]), (rd_val, s, v))
      \<in> measure (\<lambda>(rd_val, s, v). length s)"
    by simp
qed

declare read_pairs.simps [simp del]

text \<open>The two messages of the validation loop.\<close>

definition pair_text :: "('v \<Rightarrow> string) \<Rightarrow> 'v SparseVectElem list \<Rightarrow> nat \<Rightarrow> string" where
  "pair_text show_val v i =
     ''prevId = '' @ show_nat (unat (elem_id (v ! (i - 1)))) @
     '' prev val: '' @ show_val (elem_val (v ! (i - 1))) @
     '' current id: '' @ show_nat (unat (elem_id (v ! i))) @
     '' val = '' @ show_val (elem_val (v ! i)) @
     '' (i='' @ show_nat i @ '')''"

definition repeating_message :: "('v \<Rightarrow> string) \<Rightarrow> 'v SparseVectElem list \<Rightarrow> nat \<Rightarrow> string" where
  "repeating_message show_val v i = ''Repeating ID: '' @ pair_text show_val v i"

definition unsorted_message :: "('v \<Rightarrow> string) \<Rightarrow> 'v SparseVectElem list \<Rightarrow> nat \<Rightarrow> string" where
  "unsorted_message show_val v i = ''But: Ids are not sorted, '' @ pair_text show_val v i"

text \<open>
  The validation loop \<open>for (unsigned i = 1; i < v.size(); ++i)\<close> from \<open>i\<close> on:
  \<open>Some what\<close> is the \<open>runtime_error\<close> it throws, \<open>None\<close> its normal end.
  The counter is a natural number: a line holds far fewer than \<open>2^32\<close> pairs.
\<close>

function check_ids :: "('v \<Rightarrow> string) \<Rightarrow> 'v SparseVectElem list \<Rightarrow> nat \<Rightarrow> string option" where
  "check_ids show_val v i =
     (if i < length v then
        (let prevId = elem_id (v ! (i - 1)); curId = elem_id (v ! i)
         in if curId = prevId then Some (repeating_message show_val v i)
            else if curId < prevId then Some (unsorted_message show_val v i)
            else check_ids show_val v (i + 1))
      else None)"
  by pat_completeness auto
termination
  by (relation "measure (\<lambda>(show_val, v, i). length v - i)") auto

declare check_ids.simps [simp del]

definition failed_to_parse_message :: "64 word \<Rightarrow> string \<Rightarrow> string" where
  "failed_to_parse_message n line =
     ''Failed to parse the line # '' @ show_nat (unat n) @ '': '' @ [CHR 0x27] @ line @ [CHR 0x27] @ [CHR 0x0A]"

text \<open>
  \<open>ReadSparseVec\<close>. The stream \<open>str\<close> is built from the line as it comes in, before
  \<open>Object::extractLabel\<close> and \<open>ReplaceSomePunct\<close> rewrite the variable \<open>line\<close>;
  both helpers (object.h, utils.h) are arguments, \<open>extractLabel\<close> giving the label and
  the rewritten line, or the error it throws, which happens outside the \<open>try\<close> block.
  \<open>sort\<close> orders by \<open>id_\<close> (\<open>operator<\<close> of \<open>SparseVectElem\<close>); elements with the
  same \<open>id_\<close> keep their order here, as in the insertion sort \<open>std::sort\<close> runs
  on a short vector. The result is the label and the vector, or the two messages
  of the handler.
\<close>

definition ReadSparseVec ::
  "(string \<Rightarrow> error + 'l \<times> string) \<Rightarrow> (string \<Rightarrow> string) \<Rightarrow>
   (string \<Rightarrow> ('v \<times> nat) option) \<Rightarrow> ('v \<Rightarrow> string) \<Rightarrow>
   string \<Rightarrow> 64 word \<Rightarrow> error + 'l \<times> 'v SparseVectElem list" where
  "ReadSparseVec extractLabel ReplaceSomePunct rd_val show_val line n =
     (let str = line
      in (case extractLabel line of
            Inl e \<Rightarrow> Inl e
          | Inr (label, line1) \<Rightarrow>
              (let line2 = ReplaceSomePunct line1;
                   v = sort_key elem_id (read_pairs rd_val str [])
               in (case check_ids show_val v 1 of
                     Some what \<Rightarrow>
                       Inl (log_fatal (''Exception: '' @ what @ [CHR 0x0A])
                              (failed_to_parse_message n line2))
                   | None \<Rightarrow> Inr (label, v)))))"

text \<open>
  \<open>CreateObjFromStr\<close>. The cursor pointer is an option, \<open>None\<close> for \<open>NULL\<close>; the
  label passed in is overwritten by \<open>ReadSparseVec\<close>. \<open>CreateObjFromVect\<close>, pure
  virtual in this class, is an argument.
\<close>

definition Sparse_CreateObjFromStr ::
  "(string \<Rightarrow> error + 'l \<times> string) \<Rightarrow> (string \<Rightarrow> string) \<Rightarrow>
   (string \<Rightarrow> ('v \<times> nat) option) \<Rightarrow> ('v \<Rightarrow> string) \<Rightarrow>
   (int \<Rightarrow> 'l \<Rightarrow> 'v SparseVectElem list \<Rightarrow> 'o) \<Rightarrow>
   int \<Rightarrow> 'l \<Rightarrow> string \<Rightarrow> DataFileInputState option \<Rightarrow> error + 'o" where
  "Sparse_CreateObjFromStr extractLabel ReplaceSomePunct rd_val show_val CreateObjFromVect
       ident label s pInpStateBase =
     (case pInpStateBase of
        None \<Rightarrow> Inl (runtime_error ''Bug: unexpected NULL pointer type'')
      | Some st \<Rightarrow>
          (case ReadSparseVec extractLabel ReplaceSomePunct rd_val show_val s (line_num st) of
             Inl e \<Rightarrow> Inl e
           | Inr (label', vec) \<Rightarrow> Inr (CreateObjFromVect ident label' vec)))"

text \<open>
  \<open>CreateStrFromObj\<close>. The loop writes, for each element of the decoded vector, a
  space unless it is the first, the index, a space and the value; \<open>show_max\<close> is
  \<open>operator<<\<close> for a value at the precision \<open>max_digits10\<close>, with the float
  field cleared. \<open>CreateVectFromObj\<close>, pure virtual in this class, is an argument.
  The external identifier is ignored.
\<close>

function write_elems :: "('v \<Rightarrow> string) \<Rightarrow> 'v SparseVectElem list \<Rightarrow> nat \<Rightarrow> string" where
  "write_elems show_max target i =
     (if i < length target then
        (if i \<noteq> 0 then '' '' else []) @
        show_nat (unat (elem_id (target ! i))) @ '' '' @ show_max (elem_val (target ! i)) @
        write_elems show_max target (i + 1)
      else [])"
  by pat_completeness auto
termination
  by (relation "measure (\<lambda>(show_max, target, i). length target - i)") auto

declare write_elems.simps [simp del]

definition Sparse_CreateStrFromObj ::
  "('o \<Rightarrow> 'v SparseVectElem list) \<Rightarrow> ('v \<Rightarrow> string) \<Rightarrow> 'o \<Rightarrow> string \<Rightarrow> string" where
  "Sparse_CreateStrFromObj CreateVectFromObj show_max pObj ext =
     write_elems show_max (CreateVectFromObj pObj) 0"

text \<open>
  \<open>ApproxEqual\<close>: both objects are decoded and the two vectors compared with \<open>==\<close>.
\<close>

definition Sparse_ApproxEqual :: "('o \<Rightarrow> 'v SparseVectElem list) \<Rightarrow> 'o \<Rightarrow> 'o \<Rightarrow> bool" where
  "Sparse_ApproxEqual CreateVectFromObj obj1 obj2 =
     (CreateVectFromObj obj1 = CreateVectFromObj obj2)"

subsection \<open>The helpers and the value type, for concrete lines\<close>

definition LABEL_PREFIX :: string where
  \<comment> \<open>\<open>#define LABEL_PREFIX "label:"\<close> of space.h\<close>
  "LABEL_PREFIX = ''label:''"

text \<open>
  Modelled from the spec: \<open>Object::extractLabel\<close> (object.h, not among the sources),
  "extract an optional label token with a recognized prefix convention from the line".
  A line that starts with \<open>LABEL_PREFIX\<close> carries the label, a decimal number, up
  to the first white space, and goes on after that white space; any other line has no
  label and stays as it is.
\<close>

definition extractLabel :: "string \<Rightarrow> error + int option \<times> string" where
  "extractLabel fileLine =
     (if take (length LABEL_PREFIX) fileLine = LABEL_PREFIX then
        (let body = drop (length LABEL_PREFIX) fileLine;
             tok = takeWhile (\<lambda>c. \<not> isspace c) body;
             rest = dropWhile (\<lambda>c. \<not> isspace c) body
         in if rest = [] \<or> tok = [] \<or> \<not> list_all isdigit tok
            then Inl (runtime_error (''No label is found in: '' @ fileLine))
            else Inr (Some (digits_val tok), tl rest))
      else Inr (None, fileLine))"

text \<open>
  Modelled from the spec: \<open>ReplaceSomePunct\<close> (utils.h, not among the sources),
  "normalize punctuation (a defined substitution set) to tokenizable whitespace"; the
  set is taken to be the comma and the colon.
\<close>

definition ReplaceSomePunct :: "string \<Rightarrow> string" where
  "ReplaceSomePunct s = map (\<lambda>c. if c = CHR '','' \<or> c = CHR '':'' then CHR '' '' else c) s"

text \<open>
  A value type for concrete lines: the rationals, with \<open>str >> val\<close> on decimal
  literals (white space, optional sign, digits with an optional fraction, optional
  exponent) and \<open>err << val\<close> at the default precision, for values that need at most
  six fractional digits and no exponent. Literals such as \<open>1.5\<close> and \<open>2.0\<close> are
  binary fractions, so \<open>float\<close> and \<open>double\<close> hold the same value.
\<close>

definition read_exponent :: "string \<Rightarrow> (int \<times> string) option" where
  \<comment> \<open>what follows the mantissa: nothing, or \<open>e\<close>, an optional sign and digits\<close>
  "read_exponent s =
     (if s \<noteq> [] \<and> (hd s = CHR ''e'' \<or> hd s = CHR ''E'') then
        (let s1 = tl s;
             signed = (s1 \<noteq> [] \<and> (hd s1 = CHR ''-'' \<or> hd s1 = CHR ''+''));
             neg = (s1 \<noteq> [] \<and> hd s1 = CHR ''-'');
             s2 = (if signed then tl s1 else s1);
             ds = takeWhile isdigit s2
         in if ds = [] then None
            else Some (if neg then - digits_val ds else digits_val ds, dropWhile isdigit s2))
      else Some (0, s))"

definition read_decimal :: "string \<Rightarrow> (rat \<times> nat) option" where
  "read_decimal s =
     (let s1 = dropWhile isspace s;
          signed = (s1 \<noteq> [] \<and> (hd s1 = CHR ''-'' \<or> hd s1 = CHR ''+''));
          neg = (s1 \<noteq> [] \<and> hd s1 = CHR ''-'');
          s2 = (if signed then tl s1 else s1);
          ip = takeWhile isdigit s2;
          s3 = dropWhile isdigit s2;
          dot = (s3 \<noteq> [] \<and> hd s3 = CHR ''.'');
          fp = (if dot then takeWhile isdigit (tl s3) else []);
          s4 = (if dot then dropWhile isdigit (tl s3) else s3);
          m = of_int (digits_val ip) + of_int (digits_val fp) / 10 ^ length fp
      in if ip = [] \<and> fp = [] then None
         else
           (case read_exponent s4 of
              None \<Rightarrow> None
            | Some (e, s5) \<Rightarrow>
                Some ((if neg then - 1 else 1) * (if e < 0 then m / 10 ^ nat (- e) else m * 10 ^ nat e),
                      length s - length s5)))"

fun frac_digits :: "nat \<Rightarrow> rat \<Rightarrow> string" where
  "frac_digits 0 f = []"
| "frac_digits (Suc k) f =
     (if f = 0 then []
      else digit_char (nat \<lfloor>f * 10\<rfloor>) # frac_digits k (f * 10 - of_int \<lfloor>f * 10\<rfloor>))"

definition show_decimal :: "rat \<Rightarrow> string" where
  "show_decimal r =
     (let a = \<bar>r\<bar>; n = nat \<lfloor>a\<rfloor>; fs = frac_digits 6 (a - of_nat n)
      in (if r < 0 then ''-'' else []) @ show_nat n @ (if fs = [] then [] else CHR ''.'' # fs))"

subsection \<open>Sample collaborators for concrete inputs\<close>

text \<open>
  The functions that are arguments above need a value wherever a definition is run on
  a concrete input. The kernels here return the element count and zero, the dense
  serialisation a fixed text, and the object that \<open>CreateObjFromVect\<close> builds is the
  triple of what it is given.
\<close>

definition sample_L2NormSIMD :: "8 word list \<Rightarrow> 8 word list \<Rightarrow> nat \<Rightarrow> int" where
  "sample_L2NormSIMD x y len = int len"

definition sample_CosineSimilarity :: "8 word list \<Rightarrow> 8 word list \<Rightarrow> nat \<Rightarrow> int" where
  "sample_CosineSimilarity x y len = 0"

definition sample_dense_text :: "Object \<Rightarrow> string \<Rightarrow> string" where
  "sample_dense_text pObj ext = ''0.1 0.2''"

definition sample_CreateObjFromVect ::
  "int \<Rightarrow> int option \<Rightarrow> rat SparseVectElem list \<Rightarrow> int \<times> int option \<times> rat SparseVectElem list" where
  "sample_CreateObjFromVect ident label v = (ident, label, v)"

definition sample_object :: "nat \<Rightarrow> Object" where
  \<comment> \<open>an object with a payload of \<open>n\<close> zero bytes\<close>
  "sample_object n = \<lparr>obj_id = 0, obj_label = - 1, data = replicate n 0\<rparr>"

definition sample_file :: "string \<Rightarrow> DataFileInputState" where
  \<comment> \<open>a freshly opened file with the given content\<close>
  "sample_file s = \<lparr>inp_file = \<lparr>rdbuf = s, eofbit = False, failbit = False\<rparr>, line_num = 0\<rparr>"

section \<open>Theorems\<close>

subsection \<open>The phase gate\<close>

text \<open>
  C1. In the query phase (flag false) \<open>IndexTimeDistance\<close> fails with the phase
  violation, a \<open>runtime_error\<close> with the message of the source, whatever the objects
  and the metric. In the index phase (flag true) the gate lets the call through and its
  outcome is that of the underlying distance on the same objects: the call succeeds
  with the value \<open>d\<close> whenever the distance has the value \<open>d\<close>.
\<close>

theorem IndexTimeDistance_phase_gate:
  "(\<not> bIndexPhase s \<longrightarrow> IndexTimeDistance HiddenDistance s a b = Inl (runtime_error phase_message)) \<and>
   (bIndexPhase s \<longrightarrow> IndexTimeDistance HiddenDistance s a b = HiddenDistance s a b) \<and>
   (bIndexPhase s \<and> HiddenDistance s a b = Inr d \<longrightarrow> IndexTimeDistance HiddenDistance s a b = Inr d)"
  by (simp add: IndexTimeDistance_def)

theorem IndexTimeDistance_phase_gate_witness:
  "IndexTimeDistance (WordEmbed_HiddenDistance sample_L2NormSIMD sample_CosineSimilarity 4)
      \<lparr>bIndexPhase = False, distType = kEmbedDistL2\<rparr> (sample_object 8) (sample_object 8)
     = Inl (runtime_error phase_message) \<and>
   IndexTimeDistance (WordEmbed_HiddenDistance sample_L2NormSIMD sample_CosineSimilarity 4)
      \<lparr>bIndexPhase = True, distType = kEmbedDistL2\<rparr> (sample_object 8) (sample_object 8)
     = Inr 2"
  using IndexTimeDistance_phase_gate
      [of "\<lparr>bIndexPhase = False, distType = kEmbedDistL2\<rparr>"
          "WordEmbed_HiddenDistance sample_L2NormSIMD sample_CosineSimilarity 4"
          "sample_object 8" "sample_object 8" 2]
    IndexTimeDistance_phase_gate
      [of "\<lparr>bIndexPhase = True, distType = kEmbedDistL2\<rparr>"
          "WordEmbed_HiddenDistance sample_L2NormSIMD sample_CosineSimilarity 4"
          "sample_object 8" "sample_object 8" 2]
  by (simp add: WordEmbed_HiddenDistance_def datalength_def sample_object_def sample_L2NormSIMD_def)

text \<open>
  C2. \<open>Clone\<close> returns the object that \<open>HiddenClone\<close> made, with its flag set to the
  index phase, whatever \<open>HiddenClone\<close> is and whatever the flag of the original.
  For a \<open>WordEmbedSpace\<close> the clone is a new object at a fresh address: every object
  that was in the store, the original with its flag among them, is unchanged; the
  clone has the metric of the original; and switching either of the two to the query
  phase afterwards leaves the other as it was.
\<close>

theorem Clone_index_phase_independent:
  "(HiddenClone p g = (q, g1) \<and> q < length g1 \<longrightarrow>
      fst (Clone HiddenClone p g) = q \<and> bIndexPhase (snd (Clone HiddenClone p g) ! q)) \<and>
   (this < length h \<and> Clone WordEmbed_HiddenClone this h = (res, h') \<longrightarrow>
      res = length h \<and> res \<noteq> this \<and> length h' = Suc (length h) \<and>
      (\<forall>a < length h. h' ! a = h ! a) \<and>
      bIndexPhase (h' ! res) \<and> distType (h' ! res) = distType (h ! this) \<and>
      SetQueryPhase res h' ! this = h ! this \<and>
      SetQueryPhase this h' ! res = h' ! res)"
proof (intro conjI impI)
  assume a: "HiddenClone p g = (q, g1) \<and> q < length g1"
  then show "fst (Clone HiddenClone p g) = q"
    by (simp add: Clone_def)
  from a show "bIndexPhase (snd (Clone HiddenClone p g) ! q)"
    by (simp add: Clone_def SetIndexPhase_def)
next
  assume a: "this < length h \<and> Clone WordEmbed_HiddenClone this h = (res, h')"
  then have res: "res = length h"
    and h': "h' = SetIndexPhase (length h) (h @ [WordEmbedSpace_ctor (distType (h ! this))])"
    by (auto simp: Clone_def WordEmbed_HiddenClone_def new_def)
  from a have lt: "this < length h" by simp
  have h'': "h' = h @ [WordEmbedSpace_ctor (distType (h ! this))]"
    by (simp add: h' SetIndexPhase_def WordEmbedSpace_ctor_def)
  show "res = length h" by (rule res)
  show "res \<noteq> this" using res lt by simp
  show "length h' = Suc (length h)" by (simp add: h'')
  show "\<forall>a < length h. h' ! a = h ! a" by (simp add: h'' nth_append)
  show "bIndexPhase (h' ! res)" by (simp add: h'' res WordEmbedSpace_ctor_def)
  show "distType (h' ! res) = distType (h ! this)" by (simp add: h'' res WordEmbedSpace_ctor_def)
  show "SetQueryPhase res h' ! this = h ! this"
    using lt by (simp add: SetQueryPhase_def h'' res nth_append)
  show "SetQueryPhase this h' ! res = h' ! res"
    using lt by (simp add: SetQueryPhase_def h'' res nth_append)
qed

theorem Clone_index_phase_independent_witness:
  "Clone WordEmbed_HiddenClone 0 [\<lparr>bIndexPhase = False, distType = kEmbedDistCosine\<rparr>] =
     (1, [\<lparr>bIndexPhase = False, distType = kEmbedDistCosine\<rparr>,
          \<lparr>bIndexPhase = True, distType = kEmbedDistCosine\<rparr>]) \<and>
   bIndexPhase (snd (Clone WordEmbed_HiddenClone 0
      [\<lparr>bIndexPhase = False, distType = kEmbedDistCosine\<rparr>]) ! 1) \<and>
   distType ([\<lparr>bIndexPhase = False, distType = kEmbedDistCosine\<rparr>,
          \<lparr>bIndexPhase = True, distType = kEmbedDistCosine\<rparr>] ! 1) = kEmbedDistCosine"
proof -
  let ?h = "[\<lparr>bIndexPhase = False, distType = kEmbedDistCosine\<rparr>]"
  let ?h' = "[\<lparr>bIndexPhase = False, distType = kEmbedDistCosine\<rparr>,
          \<lparr>bIndexPhase = True, distType = kEmbedDistCosine\<rparr>]"
  have c: "Clone WordEmbed_HiddenClone 0 ?h = (1, ?h')"
    by (simp add: Clone_def WordEmbed_HiddenClone_def new_def SetIndexPhase_def WordEmbedSpace_ctor_def)
  have hc: "WordEmbed_HiddenClone 0 ?h = (1, ?h')"
    by (simp add: WordEmbed_HiddenClone_def new_def WordEmbedSpace_ctor_def)
  from Clone_index_phase_independent
      [where HiddenClone = WordEmbed_HiddenClone and p = 0 and g = ?h and q = 1 and ?g1.0 = ?h'
         and this = 0 and h = ?h and res = 1 and h' = ?h']
    c hc
  show ?thesis by simp
qed

subsection \<open>The distance of WordEmbedSpace\<close>

text \<open>
  C9. \<open>HiddenDistance\<close> fails its first \<open>CHECK\<close> when the payload of the first object
  is empty and its second \<open>CHECK\<close> when the two payload lengths differ (the spec's
  DimensionMismatch). With equal, non-zero lengths it returns what the kernel of the
  configured metric returns on the two buffers and the element count: \<open>L2NormSIMD\<close>
  for \<open>kEmbedDistL2\<close>, \<open>CosineSimilarity\<close> for \<open>kEmbedDistCosine\<close>.
\<close>

theorem WordEmbed_HiddenDistance_checks:
  "(datalength a = 0 \<longrightarrow>
      WordEmbed_HiddenDistance l2norm cosine sz s a b = Inl (check_failed ''obj1->datalength() > 0'')) \<and>
   (datalength a \<noteq> 0 \<and> datalength a \<noteq> datalength b \<longrightarrow>
      WordEmbed_HiddenDistance l2norm cosine sz s a b =
        Inl (check_failed ''obj1->datalength() == obj2->datalength()'')) \<and>
   (datalength a \<noteq> 0 \<and> datalength a = datalength b \<longrightarrow>
      WordEmbed_HiddenDistance l2norm cosine sz s a b =
        Inr (case distType s of
               kEmbedDistL2 \<Rightarrow> l2norm (data a) (data b) (datalength a div sz)
             | kEmbedDistCosine \<Rightarrow> cosine (data a) (data b) (datalength a div sz)))"
  by (cases "distType s") (simp_all add: WordEmbed_HiddenDistance_def Let_def)

theorem WordEmbed_HiddenDistance_checks_witness:
  "WordEmbed_HiddenDistance sample_L2NormSIMD sample_CosineSimilarity 4
      (WordEmbedSpace_ctor kEmbedDistL2) (sample_object 0) (sample_object 0)
     = Inl (check_failed ''obj1->datalength() > 0'') \<and>
   WordEmbed_HiddenDistance sample_L2NormSIMD sample_CosineSimilarity 4
      (WordEmbedSpace_ctor kEmbedDistL2) (sample_object 8) (sample_object 12)
     = Inl (check_failed ''obj1->datalength() == obj2->datalength()'') \<and>
   WordEmbed_HiddenDistance sample_L2NormSIMD sample_CosineSimilarity 4
      (WordEmbedSpace_ctor kEmbedDistL2) (sample_object 8) (sample_object 8) = Inr 2 \<and>
   WordEmbed_HiddenDistance sample_L2NormSIMD sample_CosineSimilarity 4
      (WordEmbedSpace_ctor kEmbedDistCosine) (sample_object 8) (sample_object 8) = Inr 0"
  using
    WordEmbed_HiddenDistance_checks
      [where a = "sample_object 0" and b = "sample_object 0" and l2norm = sample_L2NormSIMD
         and cosine = sample_CosineSimilarity and sz = 4 and s = "WordEmbedSpace_ctor kEmbedDistL2"]
    WordEmbed_HiddenDistance_checks
      [where a = "sample_object 8" and b = "sample_object 12" and l2norm = sample_L2NormSIMD
         and cosine = sample_CosineSimilarity and sz = 4 and s = "WordEmbedSpace_ctor kEmbedDistL2"]
    WordEmbed_HiddenDistance_checks
      [where a = "sample_object 8" and b = "sample_object 8" and l2norm = sample_L2NormSIMD
         and cosine = sample_CosineSimilarity and sz = 4 and s = "WordEmbedSpace_ctor kEmbedDistL2"]
    WordEmbed_HiddenDistance_checks
      [where a = "sample_object 8" and b = "sample_object 8" and l2norm = sample_L2NormSIMD
         and cosine = sample_CosineSimilarity and sz = 4 and s = "WordEmbedSpace_ctor kEmbedDistCosine"]
  by (simp add: datalength_def sample_object_def sample_L2NormSIMD_def sample_CosineSimilarity_def
        WordEmbedSpace_ctor_def)

subsection \<open>Reading a word-embedding record\<close>

text \<open>
  The search loop finds the first white space: it ends with \<open>-1\<close> exactly when there
  is none, and otherwise with the length of the prefix free of white space.
\<close>

lemma find_space_none: "\<not> list_ex isspace (drop i s) \<Longrightarrow> find_space s i = - 1"
proof (induction s i rule: find_space.induct)
  case (1 s i)
  show ?case
  proof (cases "i < length s")
    case True
    then have d: "drop i s = s ! i # drop (Suc i) s" by (simp add: Cons_nth_drop_Suc)
    with "1.prems" have "\<not> isspace (s ! i)" "\<not> list_ex isspace (drop (i + 1) s)" by simp_all
    with True "1.IH" show ?thesis by (subst find_space.simps) simp
  next
    case False
    then show ?thesis by (subst find_space.simps) simp
  qed
qed

lemma find_space_first:
  "list_ex isspace (drop i s) \<Longrightarrow>
     find_space s i = int (i + length (takeWhile (\<lambda>c. \<not> isspace c) (drop i s)))"
proof (induction s i rule: find_space.induct)
  case (1 s i)
  from "1.prems" have lt: "i < length s" by (cases "i < length s") auto
  then have d: "drop i s = s ! i # drop (Suc i) s" by (simp add: Cons_nth_drop_Suc)
  show ?case
  proof (cases "isspace (s ! i)")
    case True
    with lt d show ?thesis by (subst find_space.simps) simp
  next
    case False
    with "1.prems" d have "list_ex isspace (drop (i + 1) s)" by simp
    with lt False "1.IH" d show ?thesis by (subst find_space.simps) simp
  qed
qed

text \<open>
  What \<open>ReadNextObjStr\<close> does with a line it has read. The counter goes up by one in
  both cases. A line with white space is split at the first one. A line without
  gives a \<open>runtime_error\<close> whose message holds the new line number and, between the
  quotes, the fixed text \<open>strObj\<close>: the name of the variable stands inside the string
  literal of the source, so the line itself is not in the message.
\<close>

lemma ReadNextObjStr_line:
  assumes "\<not> fail (inp_file st)" and "getline (inp_file st) = (f, Some s)"
  shows "WordEmbed_ReadNextObjStr st =
           (st\<lparr>inp_file := f, line_num := line_num st + 1\<rparr>,
            if list_ex isspace s
            then Inr (Record (tl (dropWhile (\<lambda>c. \<not> isspace c) s)) (takeWhile (\<lambda>c. \<not> isspace c) s))
            else Inl (runtime_error (no_space_message (line_num st + 1))))"
proof (cases "list_ex isspace s")
  case True
  then have p: "find_space s 0 = int (length (takeWhile (\<lambda>c. \<not> isspace c) s))"
    using find_space_first [of 0 s] by simp
  have "drop (Suc (length (takeWhile (\<lambda>c. \<not> isspace c) s))) s = tl (dropWhile (\<lambda>c. \<not> isspace c) s)"
    by (simp add: dropWhile_eq_drop drop_Suc tl_drop)
  moreover have "take (length (takeWhile (\<lambda>c. \<not> isspace c) s)) s = takeWhile (\<lambda>c. \<not> isspace c) s"
    by (metis append_eq_conv_conj takeWhile_dropWhile_id)
  ultimately show ?thesis using assms True p
    by (simp add: WordEmbed_ReadNextObjStr_def Let_def nat_add_distrib)
next
  case False
  then have "find_space s 0 = - 1" using find_space_none [of 0 s] by simp
  with assms False show ?thesis
    by (simp add: WordEmbed_ReadNextObjStr_def Let_def)
qed

text \<open>
  C10. When the line read begins with a white space character, \<open>ReadNextObjStr\<close>
  raises no error and returns \<open>true\<close>: the external identifier is empty, the record
  is everything after that first character, and the line counter is one higher.
\<close>

theorem ReadNextObjStr_leading_space:
  assumes "\<not> fail (inp_file st)"
    and "getline (inp_file st) = (f, Some (c # rest))"
    and "isspace c"
  shows "WordEmbed_ReadNextObjStr st =
           (st\<lparr>inp_file := f, line_num := line_num st + 1\<rparr>, Inr (Record rest []))"
proof -
  have "find_space (c # rest) 0 = 0"
    using assms(3) by (subst find_space.simps) simp
  with assms(1,2) show ?thesis
    by (simp add: WordEmbed_ReadNextObjStr_def Let_def)
qed

theorem ReadNextObjStr_leading_space_witness:
  "WordEmbed_ReadNextObjStr (sample_file ('' 0.1 0.2'' @ [CHR 0x0A] @ ''cat 1 2'')) =
     (\<lparr>inp_file = \<lparr>rdbuf = ''cat 1 2'', eofbit = False, failbit = False\<rparr>, line_num = 1\<rparr>,
      Inr (Record ''0.1 0.2'' []))"
proof -
  let ?st = "sample_file ('' 0.1 0.2'' @ [CHR 0x0A] @ ''cat 1 2'')"
  have 1: "\<not> fail (inp_file ?st)" by (simp add: sample_file_def fail_def)
  have 2: "getline (inp_file ?st) =
      (\<lparr>rdbuf = ''cat 1 2'', eofbit = False, failbit = False\<rparr>, Some (CHR '' '' # ''0.1 0.2''))"
    by (simp add: sample_file_def getline_def)
  have 3: "isspace CHR '' ''" by (simp add: isspace_def)
  from ReadNextObjStr_leading_space [OF 1 2 3] show ?thesis
    by (simp add: sample_file_def)
qed

text \<open>
  C7. The failing input: the lines \<open>abc\<close> and \<open>xyzzy\<close>, neither with white
  space, each the first line of its file. Both calls fail with the same message, which
  holds the line number \<open>1\<close> and the text \<open>strObj\<close>, not the line that was read.
\<close>

theorem ReadNextObjStr_message_without_line:
  "WordEmbed_ReadNextObjStr (sample_file (''abc'' @ [CHR 0x0A])) =
     (\<lparr>inp_file = \<lparr>rdbuf = [], eofbit = False, failbit = False\<rparr>, line_num = 1\<rparr>,
      Inl (runtime_error (''No white space in line #1 line: '' @ [CHR 0x27] @ ''strObj'' @ [CHR 0x27]))) \<and>
   WordEmbed_ReadNextObjStr (sample_file (''xyzzy'' @ [CHR 0x0A])) =
     (\<lparr>inp_file = \<lparr>rdbuf = [], eofbit = False, failbit = False\<rparr>, line_num = 1\<rparr>,
      Inl (runtime_error (''No white space in line #1 line: '' @ [CHR 0x27] @ ''strObj'' @ [CHR 0x27])))"
  by code_simp

subsection \<open>Serialising a word-embedding object\<close>

text \<open>
  C8, as amended. \<open>CreateStrFromObj\<close> fails with a \<open>runtime_error\<close> (the spec's
  ValidationError) when the external identifier contains white space. Otherwise a
  non-empty identifier is followed by one space and the dense text of the payload,
  and an empty identifier gives the dense text alone, with no space before it.
\<close>

theorem CreateStrFromObj_external_id:
  "(HasWhiteSpace ext \<longrightarrow>
      WordEmbed_CreateStrFromObj dense_text pObj ext =
        Inl (runtime_error (''The id '' @ [CHR 0x27] @ ext @ [CHR 0x27] @
               '' has the white space (but it shouldn't)''))) \<and>
   (\<not> HasWhiteSpace ext \<and> ext \<noteq> [] \<longrightarrow>
      WordEmbed_CreateStrFromObj dense_text pObj ext = Inr (ext @ '' '' @ dense_text pObj [])) \<and>
   (ext = [] \<longrightarrow> WordEmbed_CreateStrFromObj dense_text pObj ext = Inr (dense_text pObj []))"
  by (simp add: WordEmbed_CreateStrFromObj_def HasWhiteSpace_def)

theorem CreateStrFromObj_external_id_witness:
  "WordEmbed_CreateStrFromObj sample_dense_text (sample_object 8) ''big cat'' =
     Inl (runtime_error (''The id '' @ [CHR 0x27] @ ''big cat'' @ [CHR 0x27] @
            '' has the white space (but it shouldn't)'')) \<and>
   WordEmbed_CreateStrFromObj sample_dense_text (sample_object 8) ''cat'' = Inr ''cat 0.1 0.2'' \<and>
   WordEmbed_CreateStrFromObj sample_dense_text (sample_object 8) [] = Inr ''0.1 0.2''"
proof -
  have 1: "HasWhiteSpace ''big cat''" by (simp add: HasWhiteSpace_def isspace_def)
  have 2: "\<not> HasWhiteSpace ''cat''" by (simp add: HasWhiteSpace_def isspace_def)
  from CreateStrFromObj_external_id [of "''big cat''" sample_dense_text "sample_object 8"]
    CreateStrFromObj_external_id [of "''cat''" sample_dense_text "sample_object 8"]
    CreateStrFromObj_external_id [of "[]" sample_dense_text "sample_object 8"]
    1 2
  show ?thesis by (simp add: sample_dense_text_def)
qed

text \<open>
  The claim as first stated fails on the empty identifier: it has no white space, and
  the result is not the identifier, a space and the payload text.
\<close>

theorem CreateStrFromObj_empty_id_counterexample:
  "\<not> HasWhiteSpace [] \<and>
   WordEmbed_CreateStrFromObj sample_dense_text (sample_object 8) [] \<noteq>
     Inr ([] @ '' '' @ sample_dense_text (sample_object 8) [])"
  by (simp add: WordEmbed_CreateStrFromObj_def HasWhiteSpace_def sample_dense_text_def)

subsection \<open>Parsing a sparse vector: the validation loop after the sort\<close>

lemma sorted_map_nth_mono:
  "sorted (map f v) \<Longrightarrow> i \<le> j \<Longrightarrow> j < length v \<Longrightarrow> f (v ! i) \<le> f (v ! j)"
  using sorted_nth_mono [of "map f v" i j] by simp

text \<open>
  On a vector sorted by index the loop never takes its second branch: it ends
  normally or throws the message for a repeated index.
\<close>

lemma check_ids_sorted:
  "sorted (map elem_id v) \<Longrightarrow> 0 < i \<Longrightarrow>
     check_ids sh v i = None \<or>
     (\<exists>j. i \<le> j \<and> j < length v \<and> elem_id (v ! j) = elem_id (v ! (j - 1)) \<and>
          check_ids sh v i = Some (repeating_message sh v j))"
proof (induction sh v i rule: check_ids.induct)
  case (1 sh v i)
  show ?case
  proof (cases "i < length v")
    case False
    then show ?thesis by (subst check_ids.simps) simp
  next
    case lt: True
    have le: "elem_id (v ! (i - 1)) \<le> elem_id (v ! i)"
      using sorted_map_nth_mono [OF "1.prems"(1), of "i - 1" i] lt by simp
    show ?thesis
    proof (cases "elem_id (v ! i) = elem_id (v ! (i - 1))")
      case True
      with lt have "check_ids sh v i = Some (repeating_message sh v i)"
        by (subst check_ids.simps) (simp add: Let_def)
      with lt True show ?thesis by blast
    next
      case False
      with le have nless: "\<not> elem_id (v ! i) < elem_id (v ! (i - 1))" by simp
      from lt False nless have step: "check_ids sh v i = check_ids sh v (i + 1)"
        by (subst check_ids.simps) (simp add: Let_def)
      from "1.IH" [OF lt refl refl False nless "1.prems"(1)]
      have "check_ids sh v (i + 1) = None \<or>
        (\<exists>j. i + 1 \<le> j \<and> j < length v \<and> elem_id (v ! j) = elem_id (v ! (j - 1)) \<and>
             check_ids sh v (i + 1) = Some (repeating_message sh v j))"
        by simp
      then show ?thesis unfolding step by (metis add_leD1)
    qed
  qed
qed

text \<open>The loop ends normally exactly when every index is above the one before it.\<close>

lemma check_ids_None:
  "0 < i \<Longrightarrow>
     check_ids sh v i = None \<longleftrightarrow>
     (\<forall>j. i \<le> j \<and> j < length v \<longrightarrow> elem_id (v ! (j - 1)) < elem_id (v ! j))"
proof (induction sh v i rule: check_ids.induct)
  case (1 sh v i)
  show ?case
  proof (cases "i < length v")
    case False
    then show ?thesis by (subst check_ids.simps) auto
  next
    case lt: True
    show ?thesis
    proof (cases "elem_id (v ! (i - 1)) < elem_id (v ! i)")
      case True
      then have ne: "elem_id (v ! i) \<noteq> elem_id (v ! (i - 1))"
        and nless: "\<not> elem_id (v ! i) < elem_id (v ! (i - 1))" by auto
      from lt ne nless have step: "check_ids sh v i = check_ids sh v (i + 1)"
        by (subst check_ids.simps) (simp add: Let_def)
      have ih: "check_ids sh v (i + 1) = None \<longleftrightarrow>
         (\<forall>j. i + 1 \<le> j \<and> j < length v \<longrightarrow> elem_id (v ! (j - 1)) < elem_id (v ! j))"
        using "1.IH" [OF lt refl refl ne nless] by simp
      show ?thesis unfolding step ih
      proof
        assume a: "\<forall>j. i + 1 \<le> j \<and> j < length v \<longrightarrow> elem_id (v ! (j - 1)) < elem_id (v ! j)"
        show "\<forall>j. i \<le> j \<and> j < length v \<longrightarrow> elem_id (v ! (j - 1)) < elem_id (v ! j)"
        proof (intro allI impI)
          fix j assume j: "i \<le> j \<and> j < length v"
          show "elem_id (v ! (j - 1)) < elem_id (v ! j)"
          proof (cases "j = i")
            case True with \<open>elem_id (v ! (i - 1)) < elem_id (v ! i)\<close> show ?thesis by simp
          next
            case False with j a show ?thesis by simp
          qed
        qed
      next
        assume "\<forall>j. i \<le> j \<and> j < length v \<longrightarrow> elem_id (v ! (j - 1)) < elem_id (v ! j)"
        then show "\<forall>j. i + 1 \<le> j \<and> j < length v \<longrightarrow> elem_id (v ! (j - 1)) < elem_id (v ! j)"
          by simp
      qed
    next
      case False
      then have l: "check_ids sh v i \<noteq> None"
        using lt by (subst check_ids.simps) (auto simp: Let_def)
      have r: "\<not> (\<forall>j. i \<le> j \<and> j < length v \<longrightarrow> elem_id (v ! (j - 1)) < elem_id (v ! j))"
        using False lt by blast
      from l r show ?thesis by blast
    qed
  qed
qed

lemma adjacent_increasing_iff:
  "(\<forall>j. 1 \<le> j \<and> j < length v \<longrightarrow> elem_id (v ! (j - 1)) < elem_id (v ! j)) \<longleftrightarrow>
     sorted_wrt (<) (map elem_id v)"
proof -
  have "sorted_wrt (<) (map elem_id v) \<longleftrightarrow>
      (\<forall>i. Suc i < length (map elem_id v) \<longrightarrow> map elem_id v ! i < map elem_id v ! Suc i)"
    by (rule sorted_wrt_iff_nth_Suc_transp) (simp add: transp_on_less)
  also have "\<dots> \<longleftrightarrow> (\<forall>i. Suc i < length v \<longrightarrow> elem_id (v ! i) < elem_id (v ! Suc i))"
    by (auto simp: nth_map)
  also have "\<dots> \<longleftrightarrow> (\<forall>j. 1 \<le> j \<and> j < length v \<longrightarrow> elem_id (v ! (j - 1)) < elem_id (v ! j))"
  proof
    assume a: "\<forall>i. Suc i < length v \<longrightarrow> elem_id (v ! i) < elem_id (v ! Suc i)"
    show "\<forall>j. 1 \<le> j \<and> j < length v \<longrightarrow> elem_id (v ! (j - 1)) < elem_id (v ! j)"
    proof (intro allI impI)
      fix j assume "1 \<le> j \<and> j < length v"
      then show "elem_id (v ! (j - 1)) < elem_id (v ! j)" using a [rule_format, of "j - 1"] by simp
    qed
  next
    assume a: "\<forall>j. 1 \<le> j \<and> j < length v \<longrightarrow> elem_id (v ! (j - 1)) < elem_id (v ! j)"
    show "\<forall>i. Suc i < length v \<longrightarrow> elem_id (v ! i) < elem_id (v ! Suc i)"
    proof (intro allI impI)
      fix i assume "Suc i < length v"
      then show "elem_id (v ! i) < elem_id (v ! Suc i)" using a [rule_format, of "Suc i"] by simp
    qed
  qed
  finally show ?thesis by simp
qed

lemma distinct_map_sort_key: "distinct (map f (sort_key f xs)) \<longleftrightarrow> distinct (map f xs)"
proof -
  have "mset (map f (sort_key f xs)) = mset (map f xs)" by simp
  then show ?thesis by (rule mset_eq_imp_distinct_iff)
qed

lemma check_ids_sort_key:
  "check_ids sh (sort_key elem_id ps) 1 = None \<longleftrightarrow> distinct (map elem_id ps)"
proof -
  let ?v = "sort_key elem_id ps"
  have "check_ids sh ?v 1 = None \<longleftrightarrow> sorted_wrt (<) (map elem_id ?v)"
    using check_ids_None [of 1 sh ?v] adjacent_increasing_iff [of ?v] by simp
  also have "\<dots> \<longleftrightarrow> sorted (map elem_id ?v) \<and> distinct (map elem_id ?v)"
    by (rule strict_sorted_iff)
  also have "\<dots> \<longleftrightarrow> distinct (map elem_id ps)"
    by (simp add: distinct_map_sort_key)
  finally show ?thesis .
qed

text \<open>
  The outcome of \<open>ReadSparseVec\<close> when \<open>extractLabel\<close> returns: the sorted pairs
  when the indices read from the line are pairwise distinct, and otherwise the two
  messages of the handler, the first with the text for a repeated index.
\<close>

lemma ReadSparseVec_outcome:
  assumes "exl line = Inr (lab, line1)"
  shows "(distinct (map elem_id (read_pairs rd line [])) \<longrightarrow>
            ReadSparseVec exl rsp rd sh line n = Inr (lab, sort_key elem_id (read_pairs rd line []))) \<and>
         (\<not> distinct (map elem_id (read_pairs rd line [])) \<longrightarrow>
            (\<exists>j. 0 < j \<and> j < length (read_pairs rd line []) \<and>
               elem_id (sort_key elem_id (read_pairs rd line []) ! j) =
               elem_id (sort_key elem_id (read_pairs rd line []) ! (j - 1)) \<and>
               ReadSparseVec exl rsp rd sh line n =
                 Inl (log_fatal
                   (''Exception: '' @ repeating_message sh (sort_key elem_id (read_pairs rd line [])) j @ [CHR 0x0A])
                   (failed_to_parse_message n (rsp line1)))))"
proof (intro conjI impI)
  let ?v = "sort_key elem_id (read_pairs rd line [])"
  assume "distinct (map elem_id (read_pairs rd line []))"
  then have "check_ids sh ?v 1 = None" using check_ids_sort_key [of sh "read_pairs rd line []"] by blast
  with assms show "ReadSparseVec exl rsp rd sh line n = Inr (lab, ?v)"
    by (simp add: ReadSparseVec_def)
next
  let ?v = "sort_key elem_id (read_pairs rd line [])"
  assume "\<not> distinct (map elem_id (read_pairs rd line []))"
  then have "check_ids sh ?v 1 \<noteq> None" using check_ids_sort_key [of sh "read_pairs rd line []"] by blast
  moreover have "sorted (map elem_id ?v)" by simp
  ultimately obtain j where j: "1 \<le> j" "j < length ?v" "elem_id (?v ! j) = elem_id (?v ! (j - 1))"
    and c: "check_ids sh ?v 1 = Some (repeating_message sh ?v j)"
    using check_ids_sorted [of ?v 1 sh] by auto
  from assms c have "ReadSparseVec exl rsp rd sh line n =
      Inl (log_fatal (''Exception: '' @ repeating_message sh ?v j @ [CHR 0x0A])
             (failed_to_parse_message n (rsp line1)))"
    by (simp add: ReadSparseVec_def)
  with j show "\<exists>j. 0 < j \<and> j < length (read_pairs rd line []) \<and>
               elem_id (?v ! j) = elem_id (?v ! (j - 1)) \<and>
               ReadSparseVec exl rsp rd sh line n =
                 Inl (log_fatal (''Exception: '' @ repeating_message sh ?v j @ [CHR 0x0A])
                   (failed_to_parse_message n (rsp line1)))"
    by (intro exI [of _ j]) simp
qed

text \<open>
  C3, as amended. The pairs read from the line are sorted by index before they are
  validated, so an index smaller than a preceding one is no error: when the indices
  read are pairwise distinct, \<open>CreateObjFromStr\<close> succeeds, on the pairs in
  strictly increasing order of index; and it never fails with the message for
  indices that are not sorted.
\<close>

theorem CreateObjFromStr_sorts_then_validates:
  assumes "exl line = Inr (lab, line1)"
  shows "(distinct (map elem_id (read_pairs rd line [])) \<longrightarrow>
            Sparse_CreateObjFromStr exl rsp rd sh mk ident l0 line (Some st) =
              Inr (mk ident lab (sort_key elem_id (read_pairs rd line []))) \<and>
            sorted_wrt (<) (map elem_id (sort_key elem_id (read_pairs rd line [])))) \<and>
         (\<forall>v i e. Sparse_CreateObjFromStr exl rsp rd sh mk ident l0 line (Some st) \<noteq>
            Inl (log_fatal (''Exception: '' @ unsorted_message sh v i @ [CHR 0x0A]) e))"
proof (intro conjI impI allI)
  let ?ps = "read_pairs rd line []"
  assume d: "distinct (map elem_id ?ps)"
  with ReadSparseVec_outcome
      [where exl = exl and line = line and rd = rd and rsp = rsp and sh = sh
         and n = "line_num st", OF assms]
  show "Sparse_CreateObjFromStr exl rsp rd sh mk ident l0 line (Some st) =
          Inr (mk ident lab (sort_key elem_id ?ps))"
    by (simp add: Sparse_CreateObjFromStr_def)
  from d have "distinct (map elem_id (sort_key elem_id ?ps))"
    by (simp add: distinct_map_sort_key)
  then show "sorted_wrt (<) (map elem_id (sort_key elem_id ?ps))"
    by (simp add: strict_sorted_iff)
next
  fix v :: "'b SparseVectElem list" and i e
  let ?ps = "read_pairs rd line []"
  show "Sparse_CreateObjFromStr exl rsp rd sh mk ident l0 line (Some st) \<noteq>
          Inl (log_fatal (''Exception: '' @ unsorted_message sh v i @ [CHR 0x0A]) e)"
  proof (cases "distinct (map elem_id ?ps)")
    case True
    with ReadSparseVec_outcome
      [where exl = exl and line = line and rd = rd and rsp = rsp and sh = sh
         and n = "line_num st", OF assms]
    show ?thesis by (simp add: Sparse_CreateObjFromStr_def)
  next
    case False
    with ReadSparseVec_outcome
      [where exl = exl and line = line and rd = rd and rsp = rsp and sh = sh
         and n = "line_num st", OF assms]
    show ?thesis
      by (auto simp: Sparse_CreateObjFromStr_def repeating_message_def unsorted_message_def)
  qed
qed

theorem CreateObjFromStr_sorts_then_validates_witness:
  "extractLabel ''10 1.5 5 2.0'' = Inr (None, ''10 1.5 5 2.0'') \<and>
   distinct (map elem_id (read_pairs read_decimal ''10 1.5 5 2.0'' [])) \<and>
   Sparse_CreateObjFromStr extractLabel ReplaceSomePunct read_decimal show_decimal
       sample_CreateObjFromVect 0 None ''10 1.5 5 2.0'' (Some (sample_file [])) =
     Inr (sample_CreateObjFromVect 0 None
            (sort_key elem_id (read_pairs read_decimal ''10 1.5 5 2.0'' []))) \<and>
   sorted_wrt (<) (map elem_id (sort_key elem_id (read_pairs read_decimal ''10 1.5 5 2.0'' [])))"
proof -
  have 1: "extractLabel ''10 1.5 5 2.0'' = Inr (None, ''10 1.5 5 2.0'')" by code_simp
  have 2: "distinct (map elem_id (read_pairs read_decimal ''10 1.5 5 2.0'' []))" by code_simp
  from CreateObjFromStr_sorts_then_validates
      [where exl = extractLabel and line = "''10 1.5 5 2.0''" and rd = read_decimal
         and rsp = ReplaceSomePunct and sh = show_decimal and mk = sample_CreateObjFromVect
         and ident = 0 and ?l0.0 = None and st = "sample_file []", OF 1] 1 2
  show ?thesis by blast
qed

text \<open>
  The claim as first stated fails on the line \<open>10 1.5 5 2.0\<close>, which normalisation
  leaves as it is: the index 5 comes after the index 10, and the line parses.
\<close>

theorem CreateObjFromStr_unsorted_line_counterexample:
  "ReplaceSomePunct ''10 1.5 5 2.0'' = ''10 1.5 5 2.0'' \<and>
   map elem_id (read_pairs read_decimal ''10 1.5 5 2.0'' []) = [10, 5] \<and>
   Sparse_CreateObjFromStr extractLabel ReplaceSomePunct read_decimal show_decimal
       sample_CreateObjFromVect 0 None ''10 1.5 5 2.0'' (Some (sample_file [])) =
     Inr (0, None, [\<lparr>elem_id = 5, elem_val = 2\<rparr>, \<lparr>elem_id = 10, elem_val = 3 / 2\<rparr>])"
  by code_simp

text \<open>
  When the pairs read from the line repeat an index, \<open>CreateObjFromStr\<close> fails
  with the two messages of the handler: the first names the two neighbours of the
  sorted vector that share the index, both of them pairs of the line, each with its
  index and value; the second names the line number of the cursor.
\<close>

lemma CreateObjFromStr_repeated_index:
  assumes "exl line = Inr (lab, line1)"
    and "\<not> distinct (map elem_id (read_pairs rd line []))"
  shows "\<exists>j p q. 0 < j \<and> j < length (read_pairs rd line []) \<and>
           p = sort_key elem_id (read_pairs rd line []) ! (j - 1) \<and>
           q = sort_key elem_id (read_pairs rd line []) ! j \<and>
           p \<in> set (read_pairs rd line []) \<and> q \<in> set (read_pairs rd line []) \<and>
           elem_id p = elem_id q \<and>
           Sparse_CreateObjFromStr exl rsp rd sh mk ident l0 line (Some st) =
             Inl (log_fatal
               (''Exception: Repeating ID: prevId = '' @ show_nat (unat (elem_id p)) @
                '' prev val: '' @ sh (elem_val p) @
                '' current id: '' @ show_nat (unat (elem_id q)) @
                '' val = '' @ sh (elem_val q) @
                '' (i='' @ show_nat j @ '')'' @ [CHR 0x0A])
               (''Failed to parse the line # '' @ show_nat (unat (line_num st)) @ '': '' @
                [CHR 0x27] @ rsp line1 @ [CHR 0x27] @ [CHR 0x0A]))"
proof -
  let ?ps = "read_pairs rd line []"
  let ?v = "sort_key elem_id ?ps"
  from ReadSparseVec_outcome
      [where exl = exl and line = line and rd = rd and rsp = rsp and sh = sh
         and n = "line_num st", OF assms(1)] assms(2)
  obtain j where j: "0 < j" "j < length ?ps" "elem_id (?v ! j) = elem_id (?v ! (j - 1))"
    and r: "ReadSparseVec exl rsp rd sh line (line_num st) =
       Inl (log_fatal (''Exception: '' @ repeating_message sh ?v j @ [CHR 0x0A])
              (failed_to_parse_message (line_num st) (rsp line1)))"
    by blast
  have m1: "?v ! (j - 1) \<in> set ?v"
    by (rule nth_mem) (use j in simp)
  have m2: "?v ! j \<in> set ?v"
    by (rule nth_mem) (use j in simp)
  from m1 m2 have mem: "?v ! (j - 1) \<in> set ?ps" "?v ! j \<in> set ?ps"
    by (simp_all only: set_sort)
  from r have "Sparse_CreateObjFromStr exl rsp rd sh mk ident l0 line (Some st) =
       Inl (log_fatal (''Exception: '' @ repeating_message sh ?v j @ [CHR 0x0A])
              (failed_to_parse_message (line_num st) (rsp line1)))"
    by (simp add: Sparse_CreateObjFromStr_def)
  then have "Sparse_CreateObjFromStr exl rsp rd sh mk ident l0 line (Some st) =
             Inl (log_fatal
               (''Exception: Repeating ID: prevId = '' @ show_nat (unat (elem_id (?v ! (j - 1)))) @
                '' prev val: '' @ sh (elem_val (?v ! (j - 1))) @
                '' current id: '' @ show_nat (unat (elem_id (?v ! j))) @
                '' val = '' @ sh (elem_val (?v ! j)) @
                '' (i='' @ show_nat j @ '')'' @ [CHR 0x0A])
               (''Failed to parse the line # '' @ show_nat (unat (line_num st)) @ '': '' @
                [CHR 0x27] @ rsp line1 @ [CHR 0x27] @ [CHR 0x0A]))"
    by (simp add: repeating_message_def pair_text_def failed_to_parse_message_def)
  with j mem show ?thesis by (intro exI [of _ j] exI [of _ "?v ! (j - 1)"] exI [of _ "?v ! j"]) simp
qed

lemma CreateObjFromStr_repeated_example:
  "Sparse_CreateObjFromStr extractLabel ReplaceSomePunct read_decimal show_decimal
       sample_CreateObjFromVect 0 None ''5 1.5 3 0.25 5 2.0''
       (Some ((sample_file [])\<lparr>line_num := 7\<rparr>)) =
     Inl (log_fatal
       (''Exception: Repeating ID: prevId = 5 prev val: 1.5 current id: 5 val = 2 (i=2)'' @ [CHR 0x0A])
       (''Failed to parse the line # 7: '' @ [CHR 0x27] @ ''5 1.5 3 0.25 5 2.0'' @ [CHR 0x27] @ [CHR 0x0A]))"
  by code_simp

subsection \<open>The text form of a sparse vector is read back\<close>

text \<open>
  Decimal digits: \<open>show_nat\<close> writes digits only, at least one, and they have the
  value of the number.
\<close>

lemma isdigit_digit_char: "d < 10 \<Longrightarrow> isdigit (digit_char d)"
  by (simp add: isdigit_def digit_char_def)

lemma digit_val_digit_char: "d < 10 \<Longrightarrow> digit_val (digit_char d) = int d"
proof -
  assume d: "d < 10"
  have "(of_char (char_of (48 + d)) :: int) = int (of_char (char_of (48 + d)))"
    by (simp only: of_nat_of_char)
  also have "\<dots> = int ((48 + d) mod 256)" by (simp only: of_char_of)
  also have "\<dots> = 48 + int d" using d by simp
  finally show ?thesis by (simp add: digit_val_def digit_char_def)
qed

lemma digits_val_snoc: "digits_val (ds @ [c]) = 10 * digits_val ds + digit_val c"
  by (simp add: digits_val_def)

lemma show_nat_digits: "show_nat n \<noteq> [] \<and> list_all isdigit (show_nat n) \<and> digits_val (show_nat n) = int n"
proof (induction n rule: show_nat.induct)
  case (1 n)
  show ?case
  proof (cases "n < 10")
    case True
    then show ?thesis
      by (subst (1 2 3) show_nat.simps) (simp add: isdigit_digit_char digit_val_digit_char digits_val_def)
  next
    case False
    with "1.IH" have ih: "list_all isdigit (show_nat (n div 10))" "digits_val (show_nat (n div 10)) = int (n div 10)"
      by simp_all
    have m: "n mod 10 < 10" by simp
    from False ih show ?thesis
      by (subst (1 2 3) show_nat.simps)
         (simp add: isdigit_digit_char [OF m] digit_val_digit_char [OF m] digits_val_snoc zdiv_int zmod_int)
  qed
qed

lemma not_isspace_isdigit: "isdigit c \<Longrightarrow> \<not> isspace c"
  by (auto simp: isdigit_def isspace_def)

lemma not_sign_isdigit: "isdigit c \<Longrightarrow> c \<noteq> CHR ''-'' \<and> c \<noteq> CHR ''+''"
  by (auto simp: isdigit_def)

text \<open>\<open>str >> id\<close> reads back an index that was written, up to the space after it.\<close>

lemma read_uint32_show_nat:
  assumes "list_all isspace ws"
  shows "read_uint32 (ws @ show_nat (unat w) @ CHR '' '' # r) = Some (w, CHR '' '' # r)"
proof -
  let ?d = "show_nat (unat w)"
  let ?s1 = "?d @ CHR '' '' # r"
  from show_nat_digits [of "unat w"] obtain c cs where d: "?d = c # cs"
    and all: "list_all isdigit ?d" and val: "digits_val ?d = int (unat w)"
    by (cases ?d) auto
  from d all have c: "isdigit c" by simp
  have hd: "hd ?s1 = c" and ne: "?s1 \<noteq> []" by (simp_all add: d)
  have "dropWhile isspace (ws @ ?s1) = dropWhile isspace ?s1"
    using assms by (simp add: dropWhile_append2 list_all_iff)
  also have "\<dots> = ?s1"
    using c by (simp add: d not_isspace_isdigit)
  finally have 1: "dropWhile isspace (ws @ ?s1) = ?s1" .
  have 2: "takeWhile isdigit ?s1 = ?d"
    using all by (simp add: takeWhile_append2 list_all_iff isdigit_def)
  have 3: "dropWhile isdigit ?s1 = CHR '' '' # r"
    using all by (simp add: dropWhile_append2 list_all_iff isdigit_def)
  have 4: "\<not> 4294967296 \<le> int (unat w)"
    using unsigned_less [of w, where 'a = int] by simp
  have 5: "(word_of_int (int (unat w)) :: 32 word) = w" by simp
  have 6: "?d \<noteq> []" by (simp add: d)
  from not_sign_isdigit [OF c] have 7: "c \<noteq> CHR ''-''" "c \<noteq> CHR ''+''" by simp_all
  show ?thesis
    unfolding read_uint32_def Let_def 1
    by (simp only: hd ne 7 2 3 4 5 6 val simp_thms if_False if_True)
qed

lemma write_elems_rest: "write_elems show_max target (Suc i) = [] \<or> hd (write_elems show_max target (Suc i)) = CHR '' ''"
  by (subst (1 2) write_elems.simps) simp

text \<open>
  The read loop on the text written from index \<open>i\<close> on appends the elements from
  \<open>i\<close> on, provided \<open>str >> val\<close> reads each value back from its own text, followed
  by a space or by the end of the line.
\<close>

lemma read_pairs_write_elems:
  assumes vals: "\<And>x rest. x \<in> elem_val ` set target \<Longrightarrow> rest = [] \<or> hd rest = CHR '' '' \<Longrightarrow>
      rd_val (CHR '' '' # show_max x @ rest) = Some (x, Suc (length (show_max x)))"
  shows "read_pairs rd_val (write_elems show_max target i) acc = acc @ drop i target"
  using vals
proof (induction show_max target i arbitrary: acc rule: write_elems.induct)
  case (1 show_max target i)
  show ?case
  proof (cases "i < length target")
    case False
    have "read_uint32 [] = None" by (simp add: read_uint32_def)
    with False show ?thesis
      by (subst write_elems.simps, subst read_pairs.simps) simp
  next
    case True
    let ?e = "target ! i"
    let ?ws = "if i \<noteq> 0 then '' '' else []"
    let ?rest = "write_elems show_max target (Suc i)"
    have w: "write_elems show_max target i =
        ?ws @ show_nat (unat (elem_id ?e)) @ CHR '' '' # (show_max (elem_val ?e) @ ?rest)"
      using True by (subst write_elems.simps) simp
    have ws: "list_all isspace ?ws" by (simp add: isspace_def)
    have id: "read_uint32 (write_elems show_max target i) =
        Some (elem_id ?e, CHR '' '' # (show_max (elem_val ?e) @ ?rest))"
      unfolding w by (rule read_uint32_show_nat [OF ws])
    have mem: "elem_val ?e \<in> elem_val ` set target" using True by simp
    have val: "rd_val (CHR '' '' # show_max (elem_val ?e) @ ?rest) =
        Some (elem_val ?e, Suc (length (show_max (elem_val ?e))))"
      using "1.prems" [OF mem, of ?rest] write_elems_rest [of show_max target i] by simp
    have ih: "read_pairs rd_val ?rest (acc @ [?e]) = (acc @ [?e]) @ drop (Suc i) target"
      using "1.IH" [OF True, of "acc @ [?e]"] "1.prems" by simp
    have "read_pairs rd_val (write_elems show_max target i) acc =
        read_pairs rd_val ?rest (acc @ [\<lparr>elem_id = elem_id ?e, elem_val = elem_val ?e\<rparr>])"
      by (subst read_pairs.simps) (simp add: id val)
    also have "\<dots> = (acc @ [?e]) @ drop (Suc i) target"
    proof -
      have "\<lparr>elem_id = elem_id ?e, elem_val = elem_val ?e\<rparr> = ?e" by (cases ?e) simp
      then show ?thesis using ih by (simp only:)
    qed
    also have "\<dots> = acc @ drop i target" using True by (simp add: Cons_nth_drop_Suc)
    finally show ?thesis .
  qed
qed

text \<open>
  An object whose indices increase strictly, written by \<open>CreateStrFromObj\<close> and parsed
  by \<open>CreateObjFromStr\<close>: the indices, the separators, the sort and the validation
  give back the same vector, so the new object is \<open>ApproxEqual\<close> to the old one. The
  three other assumptions are about code outside these sources: each value is read
  back from its text (for \<open>float\<close> and \<open>double\<close>, a property of the decimal
  conversions at \<open>max_digits10\<close> digits), \<open>extractLabel\<close> returns, and decoding
  undoes \<open>CreateObjFromVect\<close> on this vector.
\<close>

lemma sparse_text_round_trip:
  assumes valid: "sorted_wrt (<) (map elem_id (CreateVectFromObj obj))"
    and vals: "\<And>x rest. x \<in> elem_val ` set (CreateVectFromObj obj) \<Longrightarrow>
      rest = [] \<or> hd rest = CHR '' '' \<Longrightarrow>
      rd_val (CHR '' '' # show_max x @ rest) = Some (x, Suc (length (show_max x)))"
    and lab: "exl (Sparse_CreateStrFromObj CreateVectFromObj show_max obj ext) = Inr (lab, line1)"
    and enc: "CreateVectFromObj (CreateObjFromVect ident lab (CreateVectFromObj obj)) =
      CreateVectFromObj obj"
  shows "Sparse_CreateObjFromStr exl rsp rd_val sh CreateObjFromVect ident l0
            (Sparse_CreateStrFromObj CreateVectFromObj show_max obj ext) (Some st) =
           Inr (CreateObjFromVect ident lab (CreateVectFromObj obj)) \<and>
         Sparse_ApproxEqual CreateVectFromObj
            (CreateObjFromVect ident lab (CreateVectFromObj obj)) obj"
proof -
  let ?v = "CreateVectFromObj obj"
  let ?line = "Sparse_CreateStrFromObj CreateVectFromObj show_max obj ext"
  have ps: "read_pairs rd_val ?line [] = ?v"
    using read_pairs_write_elems [of ?v rd_val show_max 0 "[]"] vals
    by (simp add: Sparse_CreateStrFromObj_def)
  from valid have d: "distinct (map elem_id ?v)" and s: "sorted (map elem_id ?v)"
    by (simp_all add: strict_sorted_iff)
  from s have srt: "sort_key elem_id ?v = ?v" by (rule sort_key_id_if_sorted)
  from ReadSparseVec_outcome [where exl = exl and line = ?line and rd = rd_val and rsp = rsp
      and sh = sh and n = "line_num st", OF lab] d
  have "ReadSparseVec exl rsp rd_val sh ?line (line_num st) = Inr (lab, ?v)"
    by (simp add: ps srt)
  then show ?thesis
    by (simp add: Sparse_CreateObjFromStr_def Sparse_ApproxEqual_def enc)
qed

subsection \<open>Parsing a sparse vector: lines with a label\<close>

text \<open>
  The stream is built from the line before the label is taken off, so on a line with
  a label the first \<open>str >> id\<close> meets the letter \<open>l\<close> and fails: no pair is
  read, whatever follows the prefix and whatever the two helpers and the value type
  are, and \<open>ReadSparseVec\<close> returns the label with an empty vector.
\<close>

lemma read_pairs_labelled_line: "read_pairs rd (LABEL_PREFIX @ s) v = v"
proof -
  have "read_uint32 (LABEL_PREFIX @ s) = None"
    by (simp add: read_uint32_def LABEL_PREFIX_def isspace_def isdigit_def)
  then show ?thesis by (subst read_pairs.simps) simp
qed

lemma ReadSparseVec_labelled_line:
  assumes "exl (LABEL_PREFIX @ s) = Inr (lab, line1)"
  shows "ReadSparseVec exl rsp rd sh (LABEL_PREFIX @ s) n = Inr (lab, [])"
proof -
  have "check_ids sh [] 1 = None" by (subst check_ids.simps) simp
  with assms show ?thesis
    by (simp add: ReadSparseVec_def read_pairs_labelled_line)
qed

text \<open>
  C4. The failing input: the line \<open>label:1 5 1.0 5 2.0\<close>. What follows the label
  repeats the index 5, yet \<open>CreateObjFromStr\<close> reports nothing and returns an
  object with the label 1 and no pair.
\<close>

theorem CreateObjFromStr_labelled_repeated_index_accepted:
  "extractLabel ''label:1 5 1.0 5 2.0'' = Inr (Some 1, ''5 1.0 5 2.0'') \<and>
   map elem_id (read_pairs read_decimal ''5 1.0 5 2.0'' []) = [5, 5] \<and>
   read_pairs read_decimal ''label:1 5 1.0 5 2.0'' [] = [] \<and>
   Sparse_CreateObjFromStr extractLabel ReplaceSomePunct read_decimal show_decimal
       sample_CreateObjFromVect 0 None ''label:1 5 1.0 5 2.0'' (Some (sample_file [])) =
     Inr (0, Some 1, [])"
  by code_simp

text \<open>
  C5. The pairs read are sorted by index before the validation loop runs (the
  definition of \<open>ReadSparseVec\<close>, and \<open>ReadSparseVec_outcome\<close>). The failing input
  is the line of the example, \<open>label:3 10 1.5 5 2.0\<close>: the label is 3, and no pair
  is read, where the line without its label gives the pairs \<open>(5, 2.0)\<close> and \<open>(10, 1.5)\<close>.
\<close>

theorem CreateObjFromStr_labelled_line_loses_pairs:
  "extractLabel ''label:3 10 1.5 5 2.0'' = Inr (Some 3, ''10 1.5 5 2.0'') \<and>
   sort_key elem_id (read_pairs read_decimal ''10 1.5 5 2.0'' []) =
     [\<lparr>elem_id = 5, elem_val = 2\<rparr>, \<lparr>elem_id = 10, elem_val = 3 / 2\<rparr>] \<and>
   read_pairs read_decimal ''label:3 10 1.5 5 2.0'' [] = [] \<and>
   Sparse_CreateObjFromStr extractLabel ReplaceSomePunct read_decimal show_decimal
       sample_CreateObjFromVect 0 None ''label:3 10 1.5 5 2.0'' (Some (sample_file [])) =
     Inr (0, Some 3, [])"
  by code_simp

end
